theory Spec2Isabelle
  imports Main "HOL-Library.Monad_Syntax"
begin

section \<open>Strings, character classes and anchored patterns\<close>

text \<open>
  A line of the editor is a JavaScript string. It is modelled as a \<open>string\<close> whose
  characters stand for the UTF-16 code units U+0000 .. U+00FF, so \<open>length\<close> is the
  JavaScript \<open>.length\<close>. On this range the regular-expression class \<open>\s\<close> (and the set
  removed by \<open>trim\<close>) is tab, line feed, vertical tab, form feed, carriage return, space
  and the no-break space U+00A0; \<open>\d\<close> is \<open>0\<close> .. \<open>9\<close>.
\<close>

definition isSpace :: "char \<Rightarrow> bool" where
  "isSpace c \<longleftrightarrow>
     c = CHR 0x09 \<or> c = CHR 0x0A \<or> c = CHR 0x0B \<or> c = CHR 0x0C \<or> c = CHR 0x0D \<or>
     c = CHR 0x20 \<or> c = CHR 0xA0"

definition isDigit :: "char \<Rightarrow> bool" where
  "isDigit c \<longleftrightarrow> (48::nat) \<le> of_char c \<and> of_char c \<le> (57::nat)"

definition isBullet :: "char \<Rightarrow> bool" where
  "isBullet c \<longleftrightarrow> c = CHR ''-'' \<or> c = CHR ''*''"

definition isBox :: "char \<Rightarrow> bool" where
  "isBox c \<longleftrightarrow> c = CHR '' '' \<or> c = CHR ''x'' \<or> c = CHR ''X''"

definition isHash :: "char \<Rightarrow> bool" where
  "isHash c \<longleftrightarrow> c = CHR ''#''"

text \<open>
  One pattern atom that consumes exactly one character: \<open>expect p s\<close> is the rest of
  \<open>s\<close> after a first character satisfying \<open>p\<close>, and \<open>None\<close> when there is none.
\<close>

definition expect :: "(char \<Rightarrow> bool) \<Rightarrow> string \<Rightarrow> string option" where
  "expect p s = (case s of [] \<Rightarrow> None | c # r \<Rightarrow> if p c then Some r else None)"

text \<open>
  The patterns of the source are all anchored at the start of the line. In each of them
  a greedy run (\<open>\s*\<close>, \<open>\d+\<close>, \<open>#{1,4}\<close>) is followed by an atom that no character of the
  run satisfies, so backtracking never finds a match with a shorter run: the run is the
  maximal one, \<open>takeWhile\<close>.

  \<open>taskMatch\<close> is \<open>/^(\s*)([-*])\s\[[ xX]\]\s/\<close>; it yields the two groups.
\<close>

definition taskMatch :: "string \<Rightarrow> (string \<times> char) option" where
  "taskMatch line =
     (let r = dropWhile isSpace line in
      case expect isBullet r \<bind> expect isSpace \<bind> expect (\<lambda>c. c = CHR ''['') \<bind>
           expect isBox \<bind> expect (\<lambda>c. c = CHR '']'') \<bind> expect isSpace of
        None \<Rightarrow> None
      | Some _ \<Rightarrow> Some (takeWhile isSpace line, hd r))"

text \<open>\<open>ulMatch\<close> is \<open>/^(\s*)([-*])\s/\<close>.\<close>

definition ulMatch :: "string \<Rightarrow> (string \<times> char) option" where
  "ulMatch line =
     (let r = dropWhile isSpace line in
      case expect isBullet r \<bind> expect isSpace of
        None \<Rightarrow> None
      | Some _ \<Rightarrow> Some (takeWhile isSpace line, hd r))"

text \<open>\<open>olMatch\<close> is \<open>/^(\s*)(\d+)\.\s/\<close>; the second group is the digit string.\<close>

definition olMatch :: "string \<Rightarrow> (string \<times> string) option" where
  "olMatch line =
     (let r = dropWhile isSpace line; ds = takeWhile isDigit r in
      if ds = [] then None
      else case expect (\<lambda>c. c = CHR ''.'') (dropWhile isDigit r) \<bind> expect isSpace of
        None \<Rightarrow> None
      | Some _ \<Rightarrow> Some (takeWhile isSpace line, ds))"

text \<open>\<open>bqMatch\<close> is \<open>/^(\s*)>\s/\<close>.\<close>

definition bqMatch :: "string \<Rightarrow> string option" where
  "bqMatch line =
     (case expect (\<lambda>c. c = CHR ''>'') (dropWhile isSpace line) \<bind> expect isSpace of
        None \<Rightarrow> None
      | Some _ \<Rightarrow> Some (takeWhile isSpace line))"

text \<open>\<open>headingN n\<close> is the test \<open>/^#{n}\s/\<close>: exactly \<open>n\<close> hashes, then white space.\<close>

definition headingN :: "nat \<Rightarrow> string \<Rightarrow> bool" where
  "headingN n line \<longleftrightarrow>
     take n line = replicate n (CHR ''#'') \<and> expect isSpace (drop n line) \<noteq> None"

text \<open>
  \<open>headingMatch\<close> is \<open>/^#{1,4}\s/\<close>; it yields the length of the matched text. White
  space is no hash, so a match has all the leading hashes, one to four of them.
\<close>

definition headingMatch :: "string \<Rightarrow> nat option" where
  "headingMatch line =
     (let n = length (takeWhile isHash line) in
      if 1 \<le> n \<and> n \<le> 4 \<and> expect isSpace (dropWhile isHash line) \<noteq> None
      then Some (n + 1) else None)"

text \<open>The lengths of the whole matches (\<open>m[0].length\<close>) of the four list patterns.\<close>

definition taskLen :: "string \<Rightarrow> nat option" where
  "taskLen line = map_option (\<lambda>(ind, b). length ind + 6) (taskMatch line)"

definition ulLen :: "string \<Rightarrow> nat option" where
  "ulLen line = map_option (\<lambda>(ind, b). length ind + 2) (ulMatch line)"

definition olLen :: "string \<Rightarrow> nat option" where
  "olLen line = map_option (\<lambda>(ind, ds). length ind + length ds + 2) (olMatch line)"

definition bqLen :: "string \<Rightarrow> nat option" where
  "bqLen line = map_option (\<lambda>ind. length ind + 2) (bqMatch line)"

text \<open>\<open>hasChecked\<close> is the unanchored test \<open>/\[[xX]\]/.test(line)\<close>.\<close>

fun hasChecked :: "string \<Rightarrow> bool" where
  "hasChecked (a # b # c # r) =
     ((a = CHR ''['' \<and> (b = CHR ''x'' \<or> b = CHR ''X'') \<and> c = CHR '']'') \<or>
      hasChecked (b # c # r))"
| "hasChecked _ = False"

text \<open>
  \<open>trim\<close> removes white space at both ends; \<open>removeMatch\<close> is \<open>s.replace(re, "")\<close> for
  an anchored pattern without the global flag, given the length of its match.
\<close>

definition trim :: "string \<Rightarrow> string" where
  "trim s = rev (dropWhile isSpace (rev (dropWhile isSpace s)))"

definition removeMatch :: "(string \<Rightarrow> nat option) \<Rightarrow> string \<Rightarrow> string" where
  "removeMatch re s = (case re s of None \<Rightarrow> s | Some n \<Rightarrow> drop n s)"


section \<open>Numbers\<close>

text \<open>
  \<open>parseInt(digits, 10)\<close> yields a JavaScript Number, an IEEE 754 double. The values that
  occur here are the non-negative integers a double can hold and \<open>Infinity\<close>. The
  integer denoted by the digits is rounded to the nearest double, ties to the even
  significand: below \<open>2^53\<close> every integer is a double; from there on a double is
  \<open>q * 2^e\<close> with a 53-bit \<open>q\<close>, and what rounds to \<open>2^1024\<close> or more is \<open>Infinity\<close>.
\<close>

datatype jsnum = Fin nat | Infinity

fun bitlen :: "nat \<Rightarrow> nat" where
  "bitlen n = (if n = 0 then 0 else Suc (bitlen (n div 2)))"

declare bitlen.simps [simp del]

definition roundDouble :: "nat \<Rightarrow> jsnum" where
  "roundDouble n =
     (if n < 2 ^ 53 then Fin n
      else let e = bitlen n - 53; q = n div 2 ^ e; r = n mod 2 ^ e; h = 2 ^ (e - 1);
               q' = (if h < r \<or> (r = h \<and> odd q) then q + 1 else q)
           in if 2 ^ 1024 \<le> q' * 2 ^ e then Infinity else Fin (q' * 2 ^ e))"

definition digitVal :: "char \<Rightarrow> nat" where
  "digitVal c = of_char c - 48"

definition digitsValue :: "string \<Rightarrow> nat" where
  "digitsValue ds = foldl (\<lambda>a c. 10 * a + digitVal c) 0 ds"

definition parseInt10 :: "string \<Rightarrow> jsnum" where
  "parseInt10 ds = roundDouble (digitsValue ds)"

text \<open>\<open>number + 1\<close> on such a value: the exact sum, rounded.\<close>

definition plusOne :: "jsnum \<Rightarrow> jsnum" where
  "plusOne x = (case x of Fin n \<Rightarrow> roundDouble (n + 1) | Infinity \<Rightarrow> Infinity)"

definition digitChar :: "nat \<Rightarrow> char" where
  "digitChar d = char_of (48 + d)"

fun showNat :: "nat \<Rightarrow> string" where
  "showNat n = (if n < 10 then [digitChar n] else showNat (n div 10) @ [digitChar (n mod 10)])"

declare showNat.simps [simp del]

text \<open>
  A Number in a template literal is converted by Number::toString: with \<open>k\<close> as small as
  possible, digits \<open>s\<close> (\<open>10^(k-1) \<le> s < 10^k\<close>) and an exponent \<open>n\<close> such that
  \<open>s * 10^(n-k)\<close> rounds to the value, the closest such \<open>s\<close>. The text is \<open>s\<close> followed by
  \<open>n - k\<close> zeros when \<open>n \<le> 21\<close>, and exponent notation beyond. An integer below \<open>2^53\<close>
  is the only integer that rounds to itself, so its text is its decimal numeral.

  For a value \<open>x\<close> of \<open>p\<close> decimal digits, \<open>shortest x p k\<close> searches \<open>k\<close> upwards. The
  candidates with \<open>k\<close> digits are the two multiples of \<open>10^(p-k)\<close> around \<open>x\<close>; the upper
  one may be \<open>10^p\<close> itself, which is the digit \<open>1\<close> with \<open>n = p + 1\<close>. With all \<open>p\<close>
  digits the candidate is \<open>x\<close> itself.
\<close>

definition roundsTo :: "nat \<Rightarrow> nat \<Rightarrow> bool" where
  "roundsTo v x \<longleftrightarrow> roundDouble v = Fin x"

function shortest :: "nat \<Rightarrow> nat \<Rightarrow> nat \<Rightarrow> nat \<times> nat" where
  "shortest x p k =
     (if p \<le> k then (x, p)
      else let sc = 10 ^ (p - k); lo = x div sc; hi = lo + 1;
               okLo = roundsTo (lo * sc) x; okHi = roundsTo (hi * sc) x;
               useHi = (okHi \<and> (\<not> okLo \<or> hi * sc - x < x - lo * sc \<or>
                                  (hi * sc - x = x - lo * sc \<and> even hi)))
           in if useHi then (hi * sc, if hi = 10 ^ k then p + 1 else p)
              else if okLo then (lo * sc, p)
              else shortest x p (k + 1))"
  by pat_completeness auto
termination
  by (relation "measure (\<lambda>(x, p, k). p - k)") auto

declare shortest.simps [simp del]

text \<open>
  \<open>shortest\<close> returns the value \<open>s * 10^(n-k)\<close> and \<open>n\<close>; the significant digits \<open>s\<close> are
  its numeral without the trailing zeros.
\<close>

definition dropTrailingZeros :: "string \<Rightarrow> string" where
  "dropTrailingZeros s = rev (dropWhile (\<lambda>c. c = CHR ''0'') (rev s))"

definition numToString :: "jsnum \<Rightarrow> string" where
  "numToString x =
     (case x of
        Infinity \<Rightarrow> ''Infinity''
      | Fin v \<Rightarrow>
          if v < 2 ^ 53 then showNat v
          else let (w, n) = shortest v (length (showNat v)) 1 in
            if n \<le> 21 then showNat w
            else let s = dropTrailingZeros (showNat w) in
              (if length s = 1 then s else hd s # CHR ''.'' # tl s) @ ''e+'' @ showNat (n - 1))"


section \<open>Line classifier and list metadata\<close>

datatype LineType = H1 | H2 | H3 | H4 | Li | Blockquote | Para

datatype ListKind = Ul | Ol | Task | BlockquoteKind

text \<open>The kind \<open>null\<close> and the absent \<open>number\<close> of the source are \<open>None\<close>.\<close>

record ListMeta =
  kind :: "ListKind option"
  indent :: string
  currentMarker :: string
  nextMarker :: string
  number :: "jsnum option"

definition getMarkdownType :: "string \<Rightarrow> LineType" where
  "getMarkdownType line =
     (if headingN 1 line then H1
      else if headingN 2 line then H2
      else if headingN 3 line then H3
      else if headingN 4 line then H4
      else if taskLen line \<noteq> None then Li
      else if ulLen line \<noteq> None then Li
      else if olLen line \<noteq> None then Li
      else if bqLen line \<noteq> None then Blockquote
      else Para)"

definition getListMeta :: "string \<Rightarrow> ListMeta" where
  "getListMeta line =
     (let indent = takeWhile isSpace line in
      case taskMatch line of
        Some (i, b) \<Rightarrow>
          \<lparr>kind = Some Task, indent = indent,
           currentMarker = i @ [b] @ '' ['' @ (if hasChecked line then ''x'' else '' '') @ ''] '',
           nextMarker = i @ [b] @ '' [ ] '', number = None\<rparr>
      | None \<Rightarrow>
     (case ulMatch line of
        Some (i, b) \<Rightarrow>
          \<lparr>kind = Some Ul, indent = indent, currentMarker = i @ [b] @ '' '',
           nextMarker = i @ [b] @ '' '', number = None\<rparr>
      | None \<Rightarrow>
     (case olMatch line of
        Some (i, ds) \<Rightarrow>
          (let num = parseInt10 ds in
           \<lparr>kind = Some Ol, indent = indent, currentMarker = i @ numToString num @ ''. '',
            nextMarker = i @ numToString (plusOne num) @ ''. '', number = Some num\<rparr>)
      | None \<Rightarrow>
     (case bqMatch line of
        Some i \<Rightarrow>
          \<lparr>kind = Some BlockquoteKind, indent = indent, currentMarker = i @ ''> '',
           nextMarker = i @ ''> '', number = None\<rparr>
      | None \<Rightarrow>
          \<lparr>kind = None, indent = indent, currentMarker = [], nextMarker = [], number = None\<rparr>))))"

definition getRemovedPrefixLength :: "string \<Rightarrow> nat" where
  "getRemovedPrefixLength line =
     (case headingMatch line of Some n \<Rightarrow> n | None \<Rightarrow>
     (case taskLen line of Some n \<Rightarrow> n | None \<Rightarrow>
     (case ulLen line of Some n \<Rightarrow> n | None \<Rightarrow>
     (case olLen line of Some n \<Rightarrow> n | None \<Rightarrow>
     (case bqLen line of Some n \<Rightarrow> n | None \<Rightarrow> 0)))))"


section \<open>Display and source offsets\<close>

text \<open>
  The loop of \<open>mapDisplayOffsetToSourceIndex\<close>, on the part of the content from index
  \<open>i\<close> on: \<open>None\<close> when the loop runs to the end of the content without returning.
\<close>

definition startsWithBold :: "string \<Rightarrow> bool" where
  "startsWithBold s \<longleftrightarrow> take 2 s = ''**''"

function mapLoop :: "string \<Rightarrow> nat \<Rightarrow> nat \<Rightarrow> nat \<Rightarrow> nat option" where
  "mapLoop s i displayCount displayOffset =
     (if s = [] then None
      else if startsWithBold s then mapLoop (drop 2 s) (i + 2) displayCount displayOffset
      else if displayCount = displayOffset then Some i
      else mapLoop (tl s) (i + 1) (displayCount + 1) displayOffset)"
  by pat_completeness auto
termination
  by (relation "measure (\<lambda>(s, i, c, d). length s)") (auto simp: startsWithBold_def)

declare mapLoop.simps [simp del]

definition mapDisplayOffsetToSourceIndex :: "string \<Rightarrow> nat \<Rightarrow> nat" where
  "mapDisplayOffsetToSourceIndex line displayOffset =
     (let prefix = getRemovedPrefixLength line; content = drop prefix line in
      case mapLoop content 0 0 displayOffset of
        Some i \<Rightarrow> prefix + i
      | None \<Rightarrow> length line)"

text \<open>\<open>removeBold\<close> is \<open>s.replace(/\*\*/g, "")\<close>: the pairs are found left to right.\<close>

fun removeBold :: "string \<Rightarrow> string" where
  "removeBold (a # b # r) =
     (if a = CHR ''*'' \<and> b = CHR ''*'' then removeBold r else a # removeBold (b # r))"
| "removeBold s = s"

definition getDisplayContentLength :: "string \<Rightarrow> nat" where
  "getDisplayContentLength line =
     length (removeBold (removeMatch bqLen (removeMatch olLen (removeMatch ulLen
       (removeMatch taskLen (removeMatch headingMatch line))))))"

text \<open>
  The source has no function from a source index back to a display offset. This one
  follows the words of the specification, with the display content as the code itself
  determines it: \<open>strippedForDisplay\<close> is the line after the five replacements of
  \<open>getDisplayContentLength\<close> (the renderer applies the same list replacements), so the
  characters removed are the first ones of the line, and the display offset of a source
  index is the number of characters of that remainder before the index, emphasis
  markers removed. At the end of the line it is \<open>getDisplayContentLength\<close>.
\<close>

definition strippedForDisplay :: "string \<Rightarrow> string" where
  "strippedForDisplay line =
     removeMatch bqLen (removeMatch olLen (removeMatch ulLen
       (removeMatch taskLen (removeMatch headingMatch line))))"

definition displayOffsetOfSourceIndex :: "string \<Rightarrow> nat \<Rightarrow> nat" where
  "displayOffsetOfSourceIndex line src =
     (let shown = strippedForDisplay line; removed = length line - length shown in
      length (removeBold (take (src - removed) shown)))"


section \<open>The document and its edit operations\<close>

text \<open>
  The state of one editor: the \<open>lines\<close> array, the active line, the pending caret
  (\<open>cursorPositionRef\<close>), and the flags \<open>isSelectingRef\<close> and \<open>isDirty\<close>. A state update
  that the source defers by \<open>setTimeout(\<dots>, 0)\<close> is applied at once.
\<close>

record editor =
  lines :: "string list"
  activeLineIndex :: "int option"
  cursorPosition :: "nat option"
  isSelecting :: bool
  isDirty :: bool

record editorOptions =
  indentSize :: "nat option"
  continueListsOnEnter :: "bool option"
  pasteSplitLines :: "bool option"

definition orDefault :: "'a option \<Rightarrow> 'a \<Rightarrow> 'a" where
  "orDefault x d = (case x of None \<Rightarrow> d | Some v \<Rightarrow> v)"

subsection \<open>Arrays\<close>

text \<open>
  \<open>jsSet xs i v\<close> is \<open>xs[i] = v\<close>. Writing at the length appends; writing beyond it
  leaves holes in a JavaScript array, which a list of strings cannot hold: \<open>None\<close>.
  \<open>jsSplice xs start count items\<close> is \<open>xs.splice(start, count, ...items)\<close> with the
  clamping of \<open>start\<close> and \<open>count\<close> that the language prescribes.
\<close>

definition jsSet :: "'a list \<Rightarrow> nat \<Rightarrow> 'a \<Rightarrow> 'a list option" where
  "jsSet xs i v =
     (if i < length xs then Some (xs[i := v])
      else if i = length xs then Some (xs @ [v])
      else None)"

definition jsSplice :: "'a list \<Rightarrow> int \<Rightarrow> int \<Rightarrow> 'a list \<Rightarrow> 'a list" where
  "jsSplice xs start count items =
     (let len = int (length xs);
          s = (if start < 0 then max (len + start) 0 else min start len);
          c = min (max count 0) (len - s)
      in take (nat s) xs @ items @ drop (nat (s + c)) xs)"

fun splitNl :: "string \<Rightarrow> string list" where
  "splitNl [] = [[]]"
| "splitNl (c # cs) =
     (let r = splitNl cs in if c = CHR 0x0A then [] # r else (c # hd r) # tl r)"

fun crlfToLf :: "string \<Rightarrow> string" where
  "crlfToLf (a # b # r) =
     (if a = CHR 0x0D \<and> b = CHR 0x0A then CHR 0x0A # crlfToLf r else a # crlfToLf (b # r))"
| "crlfToLf s = s"

subsection \<open>The extension interface\<close>

text \<open>
  The mutating calls of \<open>ExtensionApi\<close>. Each is a functional update of the state
  (\<open>setLines(prev => \<dots>)\<close>), so a sequence of calls composes. The getters read the
  arrays of the render in which the handler was created.
\<close>

datatype apiCall =
    SetValue string
  | SetLine int string
  | InsertLine int string
  | DeleteLines int int
  | SetActiveLineIndex "int option" "nat option"

definition applyApi :: "apiCall \<Rightarrow> editor \<Rightarrow> editor option" where
  "applyApi c st =
     (case c of
        SetValue next \<Rightarrow> Some (st\<lparr>lines := splitNl next\<rparr>)
      | SetLine i s \<Rightarrow>
          (if i < 0 then Some st
           else map_option (\<lambda>nx. st\<lparr>lines := nx\<rparr>) (jsSet (lines st) (nat i) s))
      | InsertLine i s \<Rightarrow> Some (st\<lparr>lines := jsSplice (lines st) i 0 [s]\<rparr>)
      | DeleteLines start count \<Rightarrow> Some (st\<lparr>lines := jsSplice (lines st) start count []\<rparr>)
      | SetActiveLineIndex i caret \<Rightarrow>
          Some (st\<lparr>cursorPosition := (case caret of None \<Rightarrow> cursorPosition st | Some n \<Rightarrow> Some n),
                   activeLineIndex := i\<rparr>))"

fun applyCalls :: "apiCall list \<Rightarrow> editor \<Rightarrow> editor option" where
  "applyCalls [] st = Some st"
| "applyCalls (c # cs) st = applyApi c st \<bind> applyCalls cs"

text \<open>
  A hook of an extension sees the event and, through the getters, the rendered state;
  it makes a sequence of calls and says whether it handled the event. The hooks run in
  order; the first that handles the event ends the handler.
\<close>

type_synonym 'e hook = "'e \<Rightarrow> editor \<Rightarrow> apiCall list \<times> bool"

fun runHooks :: "'e hook list \<Rightarrow> 'e \<Rightarrow> editor \<Rightarrow> editor \<Rightarrow> (bool \<times> editor) option" where
  "runHooks [] e snap st = Some (False, st)"
| "runHooks (h # hs) e snap st =
     (case applyCalls (fst (h e snap)) st of
        None \<Rightarrow> None
      | Some st' \<Rightarrow> if snd (h e snap) then Some (True, st') else runHooks hs e snap st')"

subsection \<open>Key handling\<close>

datatype Key = Enter | Backspace | Tab | ArrowUp | ArrowDown | OtherKey

record keyEvent =
  key :: Key
  shiftKey :: bool
  selectionStart :: "nat option"

text \<open>
  \<open>removeMarker m line\<close> is \<open>line.replace(new RegExp("^" + escaped m), "")\<close>: every
  character of a marker that is special in a pattern is escaped, so the pattern matches
  the marker literally at the start of the line.
\<close>

definition removeMarker :: "string \<Rightarrow> string \<Rightarrow> string" where
  "removeMarker m line = (if take (length m) line = m then drop (length m) line else line)"

text \<open>
  The built-in part of \<open>handleKeyDown\<close> for the line \<open>idx\<close>. It reads \<open>lines[idx]\<close> from
  \<open>snap\<close>, the state of the render that created the handler, and updates the current
  state \<open>st\<close> (the two differ when a hook has made calls in the same event). Reading a
  line that does not exist gives \<open>undefined\<close>; \<open>getListMeta(undefined)\<close> and
  \<open>undefined.length\<close> throw, which is \<open>None\<close>, and \<open>undefined\<close> appended to a string is
  the text \<open>undefined\<close>.
\<close>

definition lineAt :: "string list \<Rightarrow> nat \<Rightarrow> string option" where
  "lineAt ls i = (if i < length ls then Some (ls ! i) else None)"

definition enterKey :: "editorOptions \<Rightarrow> nat \<Rightarrow> nat \<Rightarrow> string \<Rightarrow> editor \<Rightarrow> editor option" where
  "enterKey opts idx caret line st =
     (let meta = getListMeta line;
          before = take caret line;
          after = drop caret line;
          continueLists = orDefault (continueListsOnEnter opts) True
      in if kind meta \<noteq> None \<and> trim (removeMarker (currentMarker meta) line) = [] \<and>
            length (currentMarker meta) \<le> caret
         then map_option
                (\<lambda>nx. st\<lparr>lines := nx, isDirty := True,
                          cursorPosition := Some (length (indent meta)),
                          activeLineIndex := Some (int idx)\<rparr>)
                (jsSet (lines st) idx (indent meta))
         else map_option
                (\<lambda>nx. st\<lparr>lines :=
                            jsSplice nx (int idx + 1) 0
                              [(if kind meta \<noteq> None \<and> continueLists then nextMarker meta @ after
                                else after)],
                          isDirty := True,
                          cursorPosition :=
                            Some (if kind meta \<noteq> None \<and> continueLists
                                  then length (nextMarker meta) else 0),
                          activeLineIndex := Some (int idx + 1)\<rparr>)
                (jsSet (lines st) idx before))"

definition backspaceMerge :: "nat \<Rightarrow> editor \<Rightarrow> editor \<Rightarrow> editor option" where
  "backspaceMerge idx snap st =
     (case lineAt (lines snap) (idx - 1) of
        None \<Rightarrow> None
      | Some prevLine \<Rightarrow>
          (let textToPrepend = orDefault (lineAt (lines snap) idx) ''undefined'';
               old = orDefault (lineAt (lines st) (idx - 1)) ''undefined''
           in map_option
                (\<lambda>nx. st\<lparr>lines := jsSplice nx (int idx) 1 [], isDirty := True,
                          cursorPosition := Some (length prevLine),
                          activeLineIndex := Some (int idx - 1)\<rparr>)
                (jsSet (lines st) (idx - 1) (old @ textToPrepend))))"

definition backspaceMarker :: "nat \<Rightarrow> string \<Rightarrow> editor \<Rightarrow> editor option" where
  "backspaceMarker idx line st =
     map_option
       (\<lambda>nx. st\<lparr>lines := nx, isDirty := True, cursorPosition := Some 0,
                 activeLineIndex := Some (int idx)\<rparr>)
       (jsSet (lines st) idx (drop (length (currentMarker (getListMeta line))) line))"

text \<open>
  Shift+Tab tests \<open>/^\s{n,}/\<close> and then replaces \<open>/^ {n}/\<close>; the array element is
  assigned only when the test succeeds. The pending caret is set in either case.
\<close>

definition tabKey :: "editorOptions \<Rightarrow> bool \<Rightarrow> nat \<Rightarrow> nat \<Rightarrow> string \<Rightarrow> editor \<Rightarrow> editor option" where
  "tabKey opts shift idx caret line st =
     (let n = orDefault (indentSize opts) 2 in
      if shift then
        map_option
          (\<lambda>nx. st\<lparr>lines := nx, isDirty := True, cursorPosition := Some (nat (max 0 (int caret - int n))),
                    activeLineIndex := Some (int idx)\<rparr>)
          (if n \<le> length (takeWhile isSpace line)
           then jsSet (lines st) idx
                  (if take n line = replicate n (CHR '' '') then drop n line else line)
           else Some (lines st))
      else
        map_option
          (\<lambda>nx. st\<lparr>lines := nx, isDirty := True, cursorPosition := Some (caret + n),
                    activeLineIndex := Some (int idx)\<rparr>)
          (jsSet (lines st) idx (replicate n (CHR '' '') @ line)))"

definition keyDownBuiltin :: "editorOptions \<Rightarrow> keyEvent \<Rightarrow> nat \<Rightarrow> editor \<Rightarrow> editor \<Rightarrow> editor option" where
  "keyDownBuiltin opts e idx snap st =
     (let caret = orDefault (selectionStart e) 0; cur = lineAt (lines snap) idx in
      if isSelecting st then Some st
      else if key e = Enter then
        (case cur of None \<Rightarrow> None | Some line \<Rightarrow> enterKey opts idx caret line st)
      else if key e = Backspace \<and> caret = 0 \<and> 0 < idx then backspaceMerge idx snap st
      else if key e = Backspace \<and>
              (case cur of None \<Rightarrow> True
               | Some line \<Rightarrow> kind (getListMeta line) \<noteq> None \<and>
                   caret \<le> length (currentMarker (getListMeta line)) \<and>
                   0 < length (currentMarker (getListMeta line)))
      then (case cur of None \<Rightarrow> None | Some line \<Rightarrow> backspaceMarker idx line st)
      else if key e = Tab \<and>
              (case cur of None \<Rightarrow> True | Some line \<Rightarrow> kind (getListMeta line) \<noteq> None)
      then (case cur of None \<Rightarrow> None | Some line \<Rightarrow> tabKey opts (shiftKey e) idx caret line st)
      else if key e = ArrowUp \<and> 0 < idx
      then Some (st\<lparr>cursorPosition := Some caret, activeLineIndex := Some (int idx - 1)\<rparr>)
      else if key e = ArrowDown \<and> int idx < int (length (lines snap)) - 1
      then Some (st\<lparr>cursorPosition := Some caret, activeLineIndex := Some (int idx + 1)\<rparr>)
      else Some st)"

definition handleKeyDown ::
  "editorOptions \<Rightarrow> keyEvent hook list \<Rightarrow> keyEvent \<Rightarrow> nat \<Rightarrow> editor \<Rightarrow> editor option" where
  "handleKeyDown opts onKeyDowns e idx st =
     (case runHooks onKeyDowns e st st of
        None \<Rightarrow> None
      | Some (handled, st') \<Rightarrow> if handled then Some st' else keyDownBuiltin opts e idx st st')"

subsection \<open>Paste\<close>

text \<open>
  A paste event: the clipboard text, the caret of the textarea, and the text of the
  window's current selection.
\<close>

record pasteEvent =
  clipboardText :: string
  pasteCaret :: "nat option"
  windowSelection :: string

definition pasteBuiltin :: "editorOptions \<Rightarrow> pasteEvent \<Rightarrow> nat \<Rightarrow> editor \<Rightarrow> editor \<Rightarrow> editor option" where
  "pasteBuiltin opts e idx snap st =
     (let text = clipboardText e in
      if CHR 0x0A \<in> set (windowSelection e) then Some st
      else if \<not> orDefault (pasteSplitLines opts) True \<or> CHR 0x0A \<notin> set text then Some st
      else case lineAt (lines snap) idx of
        None \<Rightarrow> None
      | Some line \<Rightarrow>
          (let caret = orDefault (pasteCaret e) 0;
               before = take caret line;
               after = drop caret line;
               pasted = splitNl (crlfToLf text);
               head = before @ hd pasted;
               tail = last pasted @ after
           in map_option
                (\<lambda>nx. st\<lparr>lines :=
                            (if 1 < length pasted
                             then jsSplice nx (int idx + 1) 0 (butlast (tl pasted) @ [tail])
                             else nx),
                          isDirty := True,
                          cursorPosition := Some (length (last pasted)),
                          activeLineIndex := Some (int idx + int (length pasted) - 1)\<rparr>)
                (jsSet (lines st) idx head)))"

definition handlePaste ::
  "editorOptions \<Rightarrow> pasteEvent hook list \<Rightarrow> pasteEvent \<Rightarrow> nat \<Rightarrow> editor \<Rightarrow> editor option" where
  "handlePaste opts onPastes e idx st =
     (case runHooks onPastes e st st of
        None \<Rightarrow> None
      | Some (handled, st') \<Rightarrow> if handled then Some st' else pasteBuiltin opts e idx st st')"

subsection \<open>Deleting the selection\<close>

text \<open>
  \<open>deleteCurrentSelection\<close>, from the point where the selection has been resolved to the
  anchor and the focus, each a line index and a display offset in that line. A line
  that does not exist reads as the empty string (\<open>lines[i] ?? ""\<close>).
\<close>

definition deleteCurrentSelection :: "nat \<Rightarrow> nat \<Rightarrow> nat \<Rightarrow> nat \<Rightarrow> editor \<Rightarrow> editor option" where
  "deleteCurrentSelection aIdx aDisplayOffset fIdx fDisplayOffset st =
     (let swap = (fIdx < aIdx \<or> (aIdx = fIdx \<and> fDisplayOffset < aDisplayOffset));
          startIdx = (if swap then fIdx else aIdx);
          startDisp = (if swap then fDisplayOffset else aDisplayOffset);
          endIdx = (if swap then aIdx else fIdx);
          endDisp = (if swap then aDisplayOffset else fDisplayOffset);
          ls = lines st;
          startLine = orDefault (lineAt ls startIdx) [];
          endLine = orDefault (lineAt ls endIdx) [];
          startSrc = mapDisplayOffsetToSourceIndex startLine startDisp;
          endSrc = mapDisplayOffsetToSourceIndex endLine endDisp;
          startCut = (if startDisp = 0 then 0 else startSrc);
          endCut = (if endDisp = getDisplayContentLength endLine then length endLine else endSrc);
          next =
            (if startIdx = endIdx then
               (if startDisp = 0 \<and> endDisp = getDisplayContentLength startLine
                then Some (jsSplice ls (int startIdx) 1 [])
                else jsSet ls startIdx (take startCut startLine @ drop endCut startLine))
             else Some (jsSplice ls (int startIdx) (int endIdx - int startIdx + 1)
                          [take startCut startLine @ drop endCut endLine]))
      in map_option
           (\<lambda>nx. st\<lparr>lines := (if nx = [] then [[]] else nx),
                     cursorPosition := Some startSrc,
                     activeLineIndex := Some (min (int startIdx) (int (length ls) - 1)),
                     isDirty := True\<rparr>)
           next)"

subsection \<open>Initial state\<close>

text \<open>
  The state of a freshly mounted editor for the text \<open>value\<close>, and the options when
  the \<open>options\<close> property is absent.
\<close>

definition initialEditor :: "string \<Rightarrow> editor" where
  "initialEditor v =
     \<lparr>lines = splitNl v, activeLineIndex = None, cursorPosition = None,
      isSelecting = False, isDirty = False\<rparr>"

definition noOptions :: editorOptions where
  "noOptions = \<lparr>indentSize = None, continueListsOnEnter = None, pasteSplitLines = None\<rparr>"

definition pressKey :: "Key \<Rightarrow> bool \<Rightarrow> nat \<Rightarrow> keyEvent" where
  "pressKey k shift caret = \<lparr>key = k, shiftKey = shift, selectionStart = Some caret\<rparr>"


section \<open>Basic facts about arrays\<close>

lemma jsSet_in_range: "i < length xs \<Longrightarrow> jsSet xs i v = Some (xs[i := v])"
  by (simp add: jsSet_def)

lemma lineAt_in_range: "i < length ls \<Longrightarrow> lineAt ls i = Some (ls ! i)"
  by (simp add: lineAt_def)

lemma jsSplice_insert_Suc:
  assumes "i < length xs"
  shows "jsSplice xs (int i + 1) 0 items = take (Suc i) xs @ items @ drop (Suc i) xs"
proof -
  have "nat (int i + 1) = Suc i" by linarith
  then show ?thesis using assms by (simp add: jsSplice_def Let_def min_def)
qed

lemma jsSplice_delete_one:
  assumes "i < length xs"
  shows "jsSplice xs (int i) 1 [] = take i xs @ drop (Suc i) xs"
proof -
  have "nat (int i + 1) = Suc i" by linarith
  then show ?thesis using assms by (simp add: jsSplice_def Let_def min_def)
qed

lemma take_Suc_update: "j < length xs \<Longrightarrow> take (Suc j) (xs[j := v]) = take j xs @ [v]"
  by (simp add: take_Suc_conv_app_nth)


section \<open>Basic facts about the patterns\<close>

lemma expect_Some: "expect p s = Some r \<longleftrightarrow> (\<exists>c. s = c # r \<and> p c)"
  by (cases s) (auto simp: expect_def)

lemma kind_getListMeta:
  "kind (getListMeta L) =
     (if taskMatch L = None then
        if ulMatch L = None then
          if olMatch L = None then
            if bqMatch L = None then None else Some BlockquoteKind
          else Some Ol
        else Some Ul
      else Some Task)"
  by (auto simp: getListMeta_def Let_def split: option.splits)

lemma indent_getListMeta: "indent (getListMeta L) = takeWhile isSpace L"
  by (auto simp: getListMeta_def Let_def split: option.splits)

lemma lens_iff_matches:
  "taskLen L = None \<longleftrightarrow> taskMatch L = None"
  "ulLen L = None \<longleftrightarrow> ulMatch L = None"
  "olLen L = None \<longleftrightarrow> olMatch L = None"
  "bqLen L = None \<longleftrightarrow> bqMatch L = None"
  by (simp_all add: taskLen_def ulLen_def olLen_def bqLen_def)

lemma hash_line_no_list:
  assumes "L = CHR ''#'' # r"
  shows "taskMatch L = None" "ulMatch L = None" "olMatch L = None" "bqMatch L = None"
  using assms
  by (simp_all add: taskMatch_def ulMatch_def olMatch_def bqMatch_def isSpace_def isDigit_def
      expect_def isBullet_def Let_def)

lemma headingN_hash:
  assumes "headingN n L" "0 < n"
  shows "\<exists>r. L = CHR ''#'' # r"
proof -
  obtain m where n: "n = Suc m" using assms(2) by (cases n) auto
  from assms(1) have "take (Suc m) L = CHR ''#'' # replicate m (CHR ''#'')"
    by (simp add: headingN_def n)
  then show ?thesis by (cases L) auto
qed

lemma heading_no_list:
  assumes "headingN n L" "0 < n"
  shows "kind (getListMeta L) = None"
proof -
  obtain r where "L = CHR ''#'' # r" using headingN_hash [OF assms] by blast
  then show ?thesis by (simp add: kind_getListMeta hash_line_no_list)
qed

lemma blank_no_list:
  assumes "\<forall>c\<in>set s. isSpace c"
  shows "kind (getListMeta s) = None"
proof -
  have dw: "dropWhile isSpace s = []" using assms by simp
  have "taskMatch s = None" "ulMatch s = None" "olMatch s = None" "bqMatch s = None"
    by (simp_all add: taskMatch_def ulMatch_def olMatch_def bqMatch_def expect_def dw)
  then show ?thesis by (simp add: kind_getListMeta)
qed

lemma takeWhile_all: "\<forall>c\<in>set (takeWhile Q xs). Q c"
  by (auto dest: set_takeWhileD)

lemma indent_no_list: "kind (getListMeta (takeWhile isSpace L)) = None"
  by (rule blank_no_list) (rule takeWhile_all)



lemma space_not_star: "isSpace c \<Longrightarrow> c \<noteq> CHR ''*''"
  by (auto simp: isSpace_def)

lemmas pattern_defs = taskMatch_def ulMatch_def olMatch_def bqMatch_def expect_def
  isSpace_def isDigit_def isBullet_def isBox_def isHash_def Let_def

text \<open>
  Every one of the five structural patterns ends in \<open>\s\<close>: the last character of a match
  is white space.
\<close>

lemma nth_after_prefix: "s = pre @ r \<Longrightarrow> i < length r \<Longrightarrow> s ! (length pre + i) = r ! i"
  by (simp add: nth_append)

lemma headingMatch_ends_space:
  assumes "headingMatch s = Some n"
  shows "0 < n \<and> n \<le> length s \<and> isSpace (s ! (n - 1))"
proof -
  let ?hs = "takeWhile isHash s"
  from assms have n: "n = length ?hs + 1"
    and "expect isSpace (dropWhile isHash s) \<noteq> None"
    by (auto simp: headingMatch_def Let_def split: if_splits)
  then obtain c r where r: "dropWhile isHash s = c # r" "isSpace c"
    by (auto simp: expect_Some)
  have s: "s = ?hs @ c # r" using r(1) takeWhile_dropWhile_id [of isHash s] by simp
  have "s ! (length ?hs + 0) = (c # r) ! 0" by (rule nth_after_prefix [OF s]) simp
  moreover have "length s = length ?hs + Suc (length r)" by (subst s) simp
  ultimately show ?thesis using r(2) n by simp
qed

lemma taskLen_ends_space:
  assumes "taskLen s = Some n"
  shows "0 < n \<and> n \<le> length s \<and> isSpace (s ! (n - 1))"
proof -
  let ?ind = "takeWhile isSpace s"
  from assms have n: "n = length ?ind + 6"
    by (auto simp: taskLen_def taskMatch_def Let_def split: option.splits)
  from assms obtain b s1 lb x rb s2 rest where
    r: "dropWhile isSpace s = b # s1 # lb # x # rb # s2 # rest" "isSpace s2"
    by (auto simp: taskLen_def taskMatch_def Let_def expect_Some bind_eq_Some_conv
        split: option.splits)
  have s: "s = ?ind @ b # s1 # lb # x # rb # s2 # rest"
    using r(1) takeWhile_dropWhile_id [of isSpace s] by simp
  have "s ! (length ?ind + 5) = (b # s1 # lb # x # rb # s2 # rest) ! 5"
    by (rule nth_after_prefix [OF s]) simp
  then have "isSpace (s ! (length ?ind + 5))" using r(2) by simp
  moreover have "length s = length ?ind + (6 + length rest)" by (subst s) simp
  ultimately show ?thesis using n by (simp add: add.commute)
qed

lemma ulLen_ends_space:
  assumes "ulLen s = Some n"
  shows "0 < n \<and> n \<le> length s \<and> isSpace (s ! (n - 1))"
proof -
  let ?ind = "takeWhile isSpace s"
  from assms have n: "n = length ?ind + 2"
    by (auto simp: ulLen_def ulMatch_def Let_def split: option.splits)
  from assms obtain b s1 rest where
    r: "dropWhile isSpace s = b # s1 # rest" "isSpace s1"
    by (auto simp: ulLen_def ulMatch_def Let_def expect_Some bind_eq_Some_conv
        split: option.splits)
  have s: "s = ?ind @ b # s1 # rest"
    using r(1) takeWhile_dropWhile_id [of isSpace s] by simp
  have "s ! (length ?ind + 1) = (b # s1 # rest) ! 1"
    by (rule nth_after_prefix [OF s]) simp
  moreover have "length s = length ?ind + (2 + length rest)" by (subst s) simp
  ultimately show ?thesis using r(2) n by simp
qed

lemma bqLen_ends_space:
  assumes "bqLen s = Some n"
  shows "0 < n \<and> n \<le> length s \<and> isSpace (s ! (n - 1))"
proof -
  let ?ind = "takeWhile isSpace s"
  from assms have n: "n = length ?ind + 2"
    by (auto simp: bqLen_def bqMatch_def split: option.splits)
  from assms obtain b s1 rest where
    r: "dropWhile isSpace s = b # s1 # rest" "isSpace s1"
    by (auto simp: bqLen_def bqMatch_def expect_Some bind_eq_Some_conv
        split: option.splits)
  have s: "s = ?ind @ b # s1 # rest"
    using r(1) takeWhile_dropWhile_id [of isSpace s] by simp
  have "s ! (length ?ind + 1) = (b # s1 # rest) ! 1"
    by (rule nth_after_prefix [OF s]) simp
  moreover have "length s = length ?ind + (2 + length rest)" by (subst s) simp
  ultimately show ?thesis using r(2) n by simp
qed

lemma olLen_ends_space:
  assumes "olLen s = Some n"
  shows "0 < n \<and> n \<le> length s \<and> isSpace (s ! (n - 1))"
proof -
  let ?ind = "takeWhile isSpace s"
  let ?r = "dropWhile isSpace s"
  let ?ds = "takeWhile isDigit ?r"
  from assms have n: "n = length ?ind + length ?ds + 2"
    by (auto simp: olLen_def olMatch_def Let_def split: option.splits if_splits)
  from assms obtain dot s1 rest where
    r: "dropWhile isDigit ?r = dot # s1 # rest" "isSpace s1"
    by (auto simp: olLen_def olMatch_def Let_def expect_Some bind_eq_Some_conv
        split: option.splits if_splits)
  have "?r = ?ds @ dot # s1 # rest"
    using r(1) takeWhile_dropWhile_id [of isDigit ?r] by simp
  then have s: "s = (?ind @ ?ds) @ dot # s1 # rest"
    using takeWhile_dropWhile_id [of isSpace s] by simp
  have "s ! (length (?ind @ ?ds) + 1) = (dot # s1 # rest) ! 1"
    by (rule nth_after_prefix [OF s]) simp
  moreover have "length s = length (?ind @ ?ds) + (2 + length rest)" by (subst s) simp
  ultimately show ?thesis using r(2) n by simp
qed


section \<open>Basic facts about numbers\<close>

lemma digitChar_values:
  "digitChar 0 = CHR ''0''" "digitChar 1 = CHR ''1''" "digitChar 2 = CHR ''2''"
  "digitChar 3 = CHR ''3''" "digitChar 4 = CHR ''4''" "digitChar 5 = CHR ''5''"
  "digitChar 6 = CHR ''6''" "digitChar 7 = CHR ''7''" "digitChar 8 = CHR ''8''"
  "digitChar 9 = CHR ''9''"
  by (code_simp)+

lemma digitChar_Suc:
  "digitChar (Suc 0) = CHR ''1''"
  "digitChar (Suc (Suc 0)) = CHR ''2''"
  "digitChar (Suc (Suc (Suc 0))) = CHR ''3''"
  using digitChar_values(2,3,4) by (simp_all add: numeral_2_eq_2 numeral_3_eq_3)



lemma showNat_digit: "n < 10 \<Longrightarrow> showNat n = [digitChar n]"
  by (subst showNat.simps) simp





lemma bitlen_bounds: "0 < m \<Longrightarrow> 2 ^ (bitlen m - 1) \<le> m \<and> m < 2 ^ bitlen m"
proof (induction m rule: bitlen.induct)
  case (1 n)
  show ?case
  proof (cases "n div 2 = 0")
    case True
    then have "n = 1" using "1.prems" by auto
    then show ?thesis by (simp add: bitlen.simps)
  next
    case False
    then have ih: "2 ^ (bitlen (n div 2) - 1) \<le> n div 2 \<and> n div 2 < 2 ^ bitlen (n div 2)"
      using "1.IH" "1.prems" by simp
    have pos: "0 < bitlen (n div 2)" using False by (subst bitlen.simps) simp
    have bl: "bitlen n = Suc (bitlen (n div 2))" using "1.prems" by (subst bitlen.simps) simp
    have "2 ^ (bitlen n - 1) = (2::nat) * 2 ^ (bitlen (n div 2) - 1)"
      using pos by (cases "bitlen (n div 2)") (simp_all add: bl)
    moreover have "2 * (n div 2) \<le> n" by simp
    moreover have "n < 2 * (n div 2) + 2" by presburger
    ultimately show ?thesis using ih by (simp add: bl) linarith
  qed
qed

text \<open>A number below \<open>2^53\<close> is the value of the digits themselves: nothing was rounded.\<close>

lemma roundDouble_small:
  assumes "roundDouble m = Fin n" "n < 2 ^ 53"
  shows "m = n"
proof (cases "m < 2 ^ 53")
  case True
  then show ?thesis using assms(1) by (simp add: roundDouble_def)
next
  case False
  define e where "e = bitlen m - 53"
  define q where "q = m div 2 ^ e"
  have mpos: "0 < m" using False by (cases m) auto
  have "(2::nat) ^ 53 \<le> m" using False by (simp only: not_less)
  also have "m < 2 ^ bitlen m" using bitlen_bounds [OF mpos] by simp
  finally have lt: "(2::nat) ^ 53 < 2 ^ bitlen m" .
  have big: "53 < bitlen m"
  proof (rule power_less_imp_less_exp)
    show "(1::nat) < 2" by simp
    show "(2::nat) ^ 53 < 2 ^ bitlen m" by (fact lt)
  qed
  then have e1: "1 \<le> e" by (simp add: e_def)
  have "bitlen m - 1 = 52 + e" using big by (simp add: e_def)
  then have "(2::nat) ^ 52 * 2 ^ e \<le> m"
    using bitlen_bounds [OF mpos] by (simp add: power_add)
  then have q52: "2 ^ 52 \<le> q"
    unfolding q_def by (simp add: less_eq_div_iff_mult_less_eq)
  have two: "(2::nat) \<le> 2 ^ e"
    using e1 by (metis power_increasing one_le_numeral power_one_right)
  have ge: "2 ^ 53 \<le> q' * 2 ^ e" if "q \<le> q'" for q'
  proof -
    have "(2::nat) ^ 53 = 2 ^ 52 * 2" by simp
    also have "\<dots> \<le> q' * 2 ^ e" using q52 that two by (intro mult_mono) auto
    finally show ?thesis .
  qed
  from assms(1) False have "n = q * 2 ^ e \<or> n = (q + 1) * 2 ^ e"
    by (auto simp: roundDouble_def Let_def e_def [symmetric] q_def [symmetric] split: if_splits)
  then have "2 ^ 53 \<le> n" using ge [of q] ge [of "q + 1"] by auto
  then show ?thesis using assms(2) by simp
qed

lemmas number_defs = parseInt10_def digitsValue_def digitVal_def roundDouble_def plusOne_def
  numToString_def showNat_digit digitChar_values digitChar_Suc


section \<open>Basic facts about the key handler\<close>

lemma keyDown_no_hook:
  assumes "runHooks onKeyDowns e st st = Some (False, st)"
  shows "handleKeyDown opts onKeyDowns e i st = keyDownBuiltin opts e i st st"
  by (simp add: handleKeyDown_def assms)

lemmas key_defs = handleKeyDown_def keyDownBuiltin_def enterKey_def backspaceMerge_def
  backspaceMarker_def tabKey_def lineAt_def jsSet_def jsSplice_def orDefault_def
  removeMarker_def trim_def initialEditor_def noOptions_def pressKey_def isSpace_def


section \<open>Paste\<close>

text \<open>
  Claim C9. With \<open>pasteSplitLines\<close> enabled, no line break in the window's selection
  and no extension handling the event, pasting the three-segment text
  \<open>x\<newline>y\<newline>z\<close> at caret 1 of a line \<open>ab\<close> puts the lines \<open>ax\<close>, \<open>y\<close>, \<open>zb\<close> in its place,
  whatever lines come before and after it; the third of them becomes the active line
  and the pending caret is 1.
\<close>

theorem paste_three_segments:
  assumes split: "orDefault (pasteSplitLines opts) True"
    and nosel: "CHR 0x0A \<notin> set (windowSelection e)"
    and hooks: "runHooks onPastes e st st = Some (False, st)"
    and clip: "clipboardText e = ''x'' @ [CHR 0x0A] @ ''y'' @ [CHR 0x0A] @ ''z''"
    and caret: "pasteCaret e = Some 1"
    and doc: "lines st = pre @ [''ab''] @ post"
  shows "\<exists>st'. handlePaste opts onPastes e (length pre) st = Some st' \<and>
           lines st' = pre @ [''ax'', ''y'', ''zb''] @ post \<and>
           activeLineIndex st' = Some (int (length pre) + 2) \<and>
           lines st' ! (length pre + 2) = ''zb'' \<and>
           cursorPosition st' = Some 1"
proof -
  let ?i = "length pre"
  have idx: "?i < length (lines st)" by (simp add: doc)
  have cur: "lineAt (lines st) ?i = Some ''ab''"
    by (simp add: lineAt_in_range [OF idx]) (simp add: doc)
  have pasted: "splitNl (crlfToLf (clipboardText e)) = [''x'', ''y'', ''z'']"
    by (simp add: clip)
  have upd: "jsSet (lines st) ?i ''ax'' = Some (pre @ [''ax''] @ post)"
    by (simp add: jsSet_in_range [OF idx]) (simp add: doc)
  have ins: "jsSplice (pre @ ''ax'' # post) (int ?i + 1) 0 [''y'', ''zb'']
               = pre @ [''ax'', ''y'', ''zb''] @ post"
    using jsSplice_insert_Suc [of ?i "pre @ ''ax'' # post" "[''y'', ''zb'']"] by simp
  have third: "(pre @ [''ax'', ''y'', ''zb''] @ post) ! (?i + 2) = ''zb''"
    by (simp add: nth_append)
  have nl: "CHR 0x0A \<in> set (clipboardText e)" by (simp add: clip)
  have "pasteBuiltin opts e ?i st st =
          Some (st\<lparr>lines := pre @ [''ax'', ''y'', ''zb''] @ post, isDirty := True,
                   cursorPosition := Some 1, activeLineIndex := Some (int ?i + 2)\<rparr>)"
    unfolding pasteBuiltin_def Let_def
    using split nosel nl by (simp add: cur pasted caret orDefault_def upd ins)
  then show ?thesis
    using third by (simp add: handlePaste_def hooks)
qed

theorem paste_three_segments_witness:
  "\<exists>st'. handlePaste noOptions []
            \<lparr>clipboardText = ''x'' @ [CHR 0x0A] @ ''y'' @ [CHR 0x0A] @ ''z'',
             pasteCaret = Some 1, windowSelection = []\<rparr>
            0 (initialEditor ''ab'') = Some st' \<and>
         lines st' = [''ax'', ''y'', ''zb''] \<and>
         activeLineIndex st' = Some 2 \<and>
         lines st' ! 2 = ''zb'' \<and>
         cursorPosition st' = Some 1"
  using paste_three_segments [of noOptions
      "\<lparr>clipboardText = ''x'' @ [CHR 0x0A] @ ''y'' @ [CHR 0x0A] @ ''z'',
        pasteCaret = Some 1, windowSelection = []\<rparr>"
      "[]" "initialEditor ''ab''" "[]" "[]"]
  by (simp add: noOptions_def orDefault_def initialEditor_def numeral_2_eq_2)


section \<open>Backspace at the start of a line\<close>

text \<open>
  Claim C8. For a line \<open>i > 0\<close> of the document, Backspace with the caret at source
  offset 0 (no pointer selection in progress, no extension handling the key) appends
  the text of line \<open>i\<close> to line \<open>i - 1\<close> and removes line \<open>i\<close>: the document has one
  line less, line \<open>i - 1\<close> is active and the pending caret is its length before the merge.
\<close>

theorem backspace_at_line_start_merges:
  assumes pos: "0 < i"
    and idx: "i < length (lines st)"
    and nosel: "\<not> isSelecting st"
    and hooks: "runHooks onKeyDowns e st st = Some (False, st)"
    and bs: "key e = Backspace"
    and caret: "orDefault (selectionStart e) 0 = 0"
  shows "\<exists>st'. handleKeyDown opts onKeyDowns e i st = Some st' \<and>
           lines st' = take (i - 1) (lines st) @ [lines st ! (i - 1) @ lines st ! i] @
                         drop (i + 1) (lines st) \<and>
           length (lines st') = length (lines st) - 1 \<and>
           activeLineIndex st' = Some (int i - 1) \<and>
           cursorPosition st' = Some (length (lines st ! (i - 1)))"
proof -
  obtain j where i: "i = Suc j" using pos by (cases i) auto
  let ?ls = "lines st"
  let ?v = "?ls ! j @ ?ls ! i"
  have j: "j < length ?ls" using idx i by simp
  have set: "jsSet ?ls j ?v = Some (?ls[j := ?v])"
    using j by (simp add: jsSet_def)
  have del: "jsSplice (?ls[j := ?v]) (int i) 1 [] = take j ?ls @ [?v] @ drop (Suc i) ?ls"
    using jsSplice_delete_one [of i "?ls[j := ?v]"] idx j
    by (simp add: i take_Suc_update)
  have merge: "backspaceMerge i st st =
      Some (st\<lparr>lines := take j ?ls @ [?v] @ drop (Suc i) ?ls, isDirty := True,
               cursorPosition := Some (length (?ls ! j)),
               activeLineIndex := Some (int i - 1)\<rparr>)"
    unfolding backspaceMerge_def Let_def
    using idx j set del by (simp add: lineAt_def orDefault_def i)
  have "keyDownBuiltin opts e i st st = backspaceMerge i st st"
    unfolding keyDownBuiltin_def Let_def using nosel bs caret pos by simp
  then have "handleKeyDown opts onKeyDowns e i st =
      Some (st\<lparr>lines := take j ?ls @ [?v] @ drop (Suc i) ?ls, isDirty := True,
               cursorPosition := Some (length (?ls ! j)),
               activeLineIndex := Some (int i - 1)\<rparr>)"
    by (simp add: handleKeyDown_def hooks merge)
  then show ?thesis using idx j by (simp add: i)
qed

theorem backspace_at_line_start_merges_witness:
  "\<exists>st'. handleKeyDown noOptions [] (pressKey Backspace False 0) 1
            (initialEditor (''# t'' @ [CHR 0x0A] @ ''- b'' @ [CHR 0x0A] @ ''c'')) = Some st' \<and>
         lines st' = [''# t- b'', ''c''] \<and>
         length (lines st') = 2 \<and>
         activeLineIndex st' = Some 0 \<and>
         cursorPosition st' = Some 3"
  using backspace_at_line_start_merges [of 1
      "initialEditor (''# t'' @ [CHR 0x0A] @ ''- b'' @ [CHR 0x0A] @ ''c'')"
      "[]" "pressKey Backspace False 0" noOptions]
  by (simp add: initialEditor_def pressKey_def orDefault_def numeral_2_eq_2 numeral_3_eq_3)


section \<open>Classifier and metadata agree\<close>

text \<open>
  Claim C10. For every line, \<open>getMarkdownType\<close> answers list item exactly when
  \<open>getListMeta\<close> finds one of the kinds unordered, ordered or task, and blockquote
  exactly when \<open>getListMeta\<close> finds the kind blockquote.
\<close>

theorem classifier_agrees_with_listMeta:
  "(getMarkdownType L = Li \<longleftrightarrow> kind (getListMeta L) \<in> {Some Ul, Some Ol, Some Task}) \<and>
   (getMarkdownType L = Blockquote \<longleftrightarrow> kind (getListMeta L) = Some BlockquoteKind)"
proof (cases "headingN 1 L \<or> headingN 2 L \<or> headingN 3 L \<or> headingN 4 L")
  case True
  then have none: "kind (getListMeta L) = None"
    using heading_no_list [of _ L] by auto
  from True have "getMarkdownType L \<in> {H1, H2, H3, H4}"
    by (auto simp: getMarkdownType_def)
  then show ?thesis using none by auto
next
  case False
  then show ?thesis
    by (simp add: getMarkdownType_def kind_getListMeta lens_iff_matches)
qed

theorem classifier_agrees_with_listMeta_witness:
  "getMarkdownType ''  - [x] done'' = Li \<and>
   kind (getListMeta ''  - [x] done'') = Some Task \<and>
   getMarkdownType ''> quoted'' = Blockquote \<and>
   kind (getListMeta ''> quoted'') = Some BlockquoteKind"
proof -
  have "kind (getListMeta ''  - [x] done'') = Some Task"
    by (simp add: kind_getListMeta pattern_defs)
  moreover have "kind (getListMeta ''> quoted'') = Some BlockquoteKind"
    by (simp add: kind_getListMeta pattern_defs)
  ultimately show ?thesis
    using classifier_agrees_with_listMeta [of "''  - [x] done''"]
      classifier_agrees_with_listMeta [of "''> quoted''"]
    by simp
qed


section \<open>Enter on an empty item\<close>

text \<open>
  The branch of the handler that ends a list. When the line with the rebuilt marker
  \<open>currentMarker\<close> removed as a literal prefix is blank and the caret is at or past
  that marker (no pointer selection in progress, no extension handling the key), Enter
  replaces the line by its leading white space: no marker remains, the line stays
  active and the pending caret is the length of that white space.
\<close>

lemma enter_on_blank_item_terminates:
  assumes idx: "i < length (lines st)"
    and nosel: "\<not> isSelecting st"
    and hooks: "runHooks onKeyDowns e st st = Some (False, st)"
    and enter: "key e = Enter"
    and item: "kind (getListMeta (lines st ! i)) \<noteq> None"
    and blank: "trim (removeMarker (currentMarker (getListMeta (lines st ! i))) (lines st ! i)) = []"
    and caret: "length (currentMarker (getListMeta (lines st ! i))) \<le> orDefault (selectionStart e) 0"
  shows "\<exists>st'. handleKeyDown opts onKeyDowns e i st = Some st' \<and>
           lines st' = (lines st)[i := takeWhile isSpace (lines st ! i)] \<and>
           kind (getListMeta (lines st' ! i)) = None \<and>
           activeLineIndex st' = Some (int i) \<and>
           cursorPosition st' = Some (length (takeWhile isSpace (lines st ! i)))"
proof -
  let ?line = "lines st ! i"
  have "enterKey opts i (orDefault (selectionStart e) 0) ?line st =
          Some (st\<lparr>lines := (lines st)[i := takeWhile isSpace ?line], isDirty := True,
                   cursorPosition := Some (length (takeWhile isSpace ?line)),
                   activeLineIndex := Some (int i)\<rparr>)"
    unfolding enterKey_def Let_def
    using item blank caret by (simp add: jsSet_in_range [OF idx] indent_getListMeta)
  then have "keyDownBuiltin opts e i st st =
          Some (st\<lparr>lines := (lines st)[i := takeWhile isSpace ?line], isDirty := True,
                   cursorPosition := Some (length (takeWhile isSpace ?line)),
                   activeLineIndex := Some (int i)\<rparr>)"
    unfolding keyDownBuiltin_def Let_def
    using nosel enter by (simp add: lineAt_in_range [OF idx])
  then show ?thesis
    using idx by (simp add: keyDown_no_hook [OF hooks] indent_no_list)
qed

lemma enter_on_blank_item_example:
  "\<exists>st'. handleKeyDown noOptions [] (pressKey Enter False 4) 1
            (initialEditor (''- a'' @ [CHR 0x0A] @ ''  - '')) = Some st' \<and>
         lines st' = [''- a'', ''  ''] \<and>
         kind (getListMeta (lines st' ! 1)) = None \<and>
         activeLineIndex st' = Some 1 \<and>
         cursorPosition st' = Some 2"
proof -
  have meta: "getListMeta ''  - '' =
      \<lparr>kind = Some Ul, indent = ''  '', currentMarker = ''  - '', nextMarker = ''  - '',
       number = None\<rparr>"
    by (simp add: getListMeta_def pattern_defs)
  show ?thesis
    using enter_on_blank_item_terminates [of 1
      "initialEditor (''- a'' @ [CHR 0x0A] @ ''  - '')" "[]" "pressKey Enter False 4" noOptions]
    by (simp add: initialEditor_def pressKey_def orDefault_def meta removeMarker_def trim_def
        isSpace_def numeral_2_eq_2)
qed


section \<open>Tab and Shift+Tab\<close>

lemma takeWhile_replicate_prefix:
  assumes "take n xs = replicate n c" "Q c"
  shows "n \<le> length (takeWhile Q xs)"
proof -
  have "xs = replicate n c @ drop n xs"
    using assms(1) append_take_drop_id [of n xs] by simp
  then have "takeWhile Q xs = replicate n c @ takeWhile Q (drop n xs)"
    using assms(2) by (metis in_set_replicate takeWhile_append2)
  then show ?thesis by simp
qed

text \<open>
  What the Tab branch of the handler does to the text. With no pointer selection in
  progress and no extension handling the key: Tab on a line that is no list or quote
  line changes nothing; Tab on a list or quote line with the indent size 2 puts two
  spaces in front of the line and moves the pending caret right by 2; Shift+Tab on a
  list or quote line that begins with one indent unit of space characters removes
  exactly these and moves the pending caret left by the indent size, not below 0; on
  any other list or quote line Shift+Tab leaves the text as it is. What it does to the
  pending caret in that last case is the subject of the last section.
\<close>

lemma tab_and_shift_tab:
  assumes idx: "i < length (lines st)"
    and nosel: "\<not> isSelecting st"
    and hooks: "runHooks onKeyDowns e st st = Some (False, st)"
    and tab: "key e = Tab"
    and line: "line = lines st ! i"
    and caret: "caret = orDefault (selectionStart e) 0"
    and n: "n = orDefault (indentSize opts) 2"
  shows "(kind (getListMeta line) = None \<longrightarrow>
            handleKeyDown opts onKeyDowns e i st = Some st) \<and>
         (kind (getListMeta line) \<noteq> None \<and> \<not> shiftKey e \<and> n = 2 \<longrightarrow>
            (\<exists>st'. handleKeyDown opts onKeyDowns e i st = Some st' \<and>
               lines st' = (lines st)[i := ''  '' @ line] \<and>
               cursorPosition st' = Some (caret + 2) \<and>
               activeLineIndex st' = Some (int i))) \<and>
         (kind (getListMeta line) \<noteq> None \<and> shiftKey e \<and> take n line = replicate n (CHR '' '') \<longrightarrow>
            (\<exists>st'. handleKeyDown opts onKeyDowns e i st = Some st' \<and>
               lines st' = (lines st)[i := drop n line] \<and>
               cursorPosition st' = Some (caret - n) \<and>
               activeLineIndex st' = Some (int i))) \<and>
         (kind (getListMeta line) \<noteq> None \<and> shiftKey e \<and> take n line \<noteq> replicate n (CHR '' '') \<longrightarrow>
            (\<exists>st'. handleKeyDown opts onKeyDowns e i st = Some st' \<and>
               lines st' = lines st \<and>
               activeLineIndex st' = Some (int i)))"
proof -
  have cur: "lineAt (lines st) i = Some line"
    by (simp add: lineAt_in_range [OF idx] line)
  have plain: "handleKeyDown opts onKeyDowns e i st = Some st"
    if "kind (getListMeta line) = None"
    unfolding keyDown_no_hook [OF hooks] keyDownBuiltin_def Let_def
    using nosel tab that by (simp add: cur)
  have builtin: "handleKeyDown opts onKeyDowns e i st = tabKey opts (shiftKey e) i caret line st"
    if "kind (getListMeta line) \<noteq> None"
    unfolding keyDown_no_hook [OF hooks] keyDownBuiltin_def Let_def
    using nosel tab that by (simp add: cur caret)
  have indent: "\<exists>st'. tabKey opts (shiftKey e) i caret line st = Some st' \<and>
               lines st' = (lines st)[i := ''  '' @ line] \<and>
               cursorPosition st' = Some (caret + 2) \<and>
               activeLineIndex st' = Some (int i)"
    if "\<not> shiftKey e" "n = 2"
    unfolding tabKey_def Let_def
    using that n by (simp add: jsSet_in_range [OF idx] numeral_2_eq_2)
  have outdent: "\<exists>st'. tabKey opts (shiftKey e) i caret line st = Some st' \<and>
               lines st' = (lines st)[i := drop n line] \<and>
               cursorPosition st' = Some (caret - n) \<and>
               activeLineIndex st' = Some (int i)"
    if "shiftKey e" "take n line = replicate n (CHR '' '')"
  proof -
    have "n \<le> length (takeWhile isSpace line)"
      using takeWhile_replicate_prefix [OF that(2)] by (simp add: isSpace_def)
    then show ?thesis
      unfolding tabKey_def Let_def
      using that n by (simp add: jsSet_in_range [OF idx])
  qed
  have same: "\<exists>st'. tabKey opts (shiftKey e) i caret line st = Some st' \<and>
               lines st' = lines st \<and> activeLineIndex st' = Some (int i)"
    if "shiftKey e" "take n line \<noteq> replicate n (CHR '' '')"
    unfolding tabKey_def Let_def
    using that n by (simp add: jsSet_in_range [OF idx] line)
  show ?thesis
    using plain builtin indent outdent same by simp
qed


section \<open>Ordered lists\<close>
















section \<open>Display offsets and source indices\<close>

lemma removeBold_cons:
  "\<not> startsWithBold (c # r) \<Longrightarrow> removeBold (c # r) = c # removeBold r"
  by (cases r) (auto simp: startsWithBold_def)

lemma removeBold_bold:
  "startsWithBold s \<Longrightarrow> removeBold s = removeBold (drop 2 s)"
  by (cases s rule: removeBold.cases) (auto simp: startsWithBold_def)

lemma startsWithBold_take:
  "startsWithBold (c # take k r) \<Longrightarrow> startsWithBold (c # r)"
  by (cases r; cases k) (auto simp: startsWithBold_def)

text \<open>
  When the loop returns, it returns the index of a character of the content, and the
  content before that index shows exactly the characters still to be counted.
\<close>

lemma mapLoop_Some:
  "mapLoop s i dc d = Some j \<Longrightarrow> dc \<le> d \<Longrightarrow>
     \<exists>k. j = i + k \<and> k < length s \<and> dc + length (removeBold (take k s)) = d"
proof (induction s i dc d rule: mapLoop.induct)
  case (1 s i dc d)
  show ?case
  proof (cases "s = []")
    case True
    with "1.prems" show ?thesis by (subst (asm) mapLoop.simps) simp
  next
    case ne: False
    show ?thesis
    proof (cases "startsWithBold s")
      case True
      then have len: "2 \<le> length s"
        by (cases s rule: removeBold.cases) (auto simp: startsWithBold_def)
      from "1.prems"(1) ne True have "mapLoop (drop 2 s) (i + 2) dc d = Some j"
        by (subst (asm) mapLoop.simps) simp
      from "1.IH"(1) [OF ne True this "1.prems"(2)]
      obtain k where k: "j = i + 2 + k" "k < length (drop 2 s)"
        "dc + length (removeBold (take k (drop 2 s))) = d" by blast
      have "take (2 + k) s = take 2 s @ take k (drop 2 s)"
        by (rule take_add)
      then have "take (k + 2) s = take 2 s @ take k (drop 2 s)"
        by (simp only: add.commute)
      moreover have "take 2 s = ''**''" using True by (simp add: startsWithBold_def)
      ultimately have "removeBold (take (k + 2) s) = removeBold (take k (drop 2 s))"
        by simp
      then show ?thesis using k len by (intro exI [of _ "k + 2"]) auto
    next
      case nb: False
      show ?thesis
      proof (cases "dc = d")
        case True
        with "1.prems"(1) ne nb have "j = i" by (subst (asm) mapLoop.simps) simp
        then show ?thesis using ne True by (intro exI [of _ 0]) simp
      next
        case False
        from "1.prems"(1) ne nb False have "mapLoop (tl s) (i + 1) (dc + 1) d = Some j"
          by (subst (asm) mapLoop.simps) simp
        moreover have "dc + 1 \<le> d" using False "1.prems"(2) by simp
        ultimately obtain k where k: "j = i + 1 + k" "k < length (tl s)"
          "dc + 1 + length (removeBold (take k (tl s))) = d"
          using "1.IH"(2) [OF ne nb False] by blast
        obtain c r where s: "s = c # r" using ne by (cases s) auto
        have "\<not> startsWithBold (c # take k r)"
          using nb startsWithBold_take [of c k r] by (auto simp: s)
        then have "removeBold (take (Suc k) s) = c # removeBold (take k r)"
          by (simp add: s removeBold_cons)
        then show ?thesis using k by (intro exI [of _ "Suc k"]) (auto simp: s)
      qed
    qed
  qed
qed

text \<open>When the loop runs to the end, the whole content shows no more than was asked for.\<close>

lemma mapLoop_None:
  "mapLoop s i dc d = None \<Longrightarrow> dc \<le> d \<Longrightarrow> dc + length (removeBold s) \<le> d"
proof (induction s i dc d rule: mapLoop.induct)
  case (1 s i dc d)
  show ?case
  proof (cases "s = []")
    case True
    with "1.prems" show ?thesis by simp
  next
    case ne: False
    show ?thesis
    proof (cases "startsWithBold s")
      case True
      from "1.prems"(1) ne True have "mapLoop (drop 2 s) (i + 2) dc d = None"
        by (subst (asm) mapLoop.simps) simp
      from "1.IH"(1) [OF ne True this "1.prems"(2)] show ?thesis
        by (simp add: removeBold_bold [OF True])
    next
      case nb: False
      have neq: "dc \<noteq> d"
        using "1.prems"(1) ne nb by (subst (asm) mapLoop.simps) auto
      from "1.prems"(1) ne nb neq have "mapLoop (tl s) (i + 1) (dc + 1) d = None"
        by (subst (asm) mapLoop.simps) simp
      moreover have "dc + 1 \<le> d" using neq "1.prems"(2) by simp
      ultimately have "dc + 1 + length (removeBold (tl s)) \<le> d"
        using "1.IH"(2) [OF ne nb neq] by blast
      moreover obtain c r where s: "s = c # r" using ne by (cases s) auto
      ultimately show ?thesis using nb by (simp add: s removeBold_cons)
    qed
  qed
qed

lemma removeBold_nonstar: "c \<noteq> CHR ''*'' \<Longrightarrow> removeBold (c # a) = c # removeBold a"
  by (cases a) auto

lemma removeBold_after_nonstar:
  "c \<noteq> CHR ''*'' \<Longrightarrow> removeBold (pre @ c # a) = removeBold (pre @ [c]) @ removeBold a"
  by (induction pre rule: removeBold.induct) (simp_all add: removeBold_nonstar)

lemma drop_after_space:
  assumes "0 < n" "n \<le> length s" "isSpace (s ! (n - 1))"
  shows "length (removeBold (drop n s)) \<le> length (removeBold s)"
proof -
  obtain m where n: "n = Suc m" using assms(1) by (cases n) auto
  have m: "m < length s" using assms(2) n by simp
  have "s = take m s @ s ! m # drop n s"
    using id_take_nth_drop [OF m] by (simp add: n)
  moreover have "s ! m \<noteq> CHR ''*''" using assms(3) n by (simp add: space_not_star)
  ultimately have "removeBold s = removeBold (take m s @ [s ! m]) @ removeBold (drop n s)"
    using removeBold_after_nonstar [of "s ! m" "take m s" "drop n s"] by simp
  then show ?thesis by simp
qed

lemma removeMatch_shrinks:
  assumes "\<And>n. re s = Some n \<Longrightarrow> 0 < n \<and> n \<le> length s \<and> isSpace (s ! (n - 1))"
  shows "length (removeBold (removeMatch re s)) \<le> length (removeBold s)"
  using assms drop_after_space [of _ s]
  by (auto simp: removeMatch_def split: option.splits)

lemmas removeMatch_le =
  removeMatch_shrinks [of headingMatch, OF headingMatch_ends_space]
  removeMatch_shrinks [of taskLen, OF taskLen_ends_space]
  removeMatch_shrinks [of ulLen, OF ulLen_ends_space]
  removeMatch_shrinks [of olLen, OF olLen_ends_space]
  removeMatch_shrinks [of bqLen, OF bqLen_ends_space]

text \<open>
  \<open>getDisplayContentLength\<close> applies the five replacements one after the other, so on
  a line such as \<open># - a\<close> it removes more than the prefix that
  \<open>getRemovedPrefixLength\<close> measures; it never counts more than the content holds.
\<close>

lemma display_le_content:
  "getDisplayContentLength line \<le>
     length (removeBold (drop (getRemovedPrefixLength line) line))"
proof -
  let ?s1 = "removeMatch headingMatch line"
  let ?s2 = "removeMatch taskLen ?s1"
  let ?s3 = "removeMatch ulLen ?s2"
  let ?s4 = "removeMatch olLen ?s3"
  let ?s5 = "removeMatch bqLen ?s4"
  let ?rb = "\<lambda>s. length (removeBold s)"
  have d: "getDisplayContentLength line = ?rb ?s5"
    by (simp add: getDisplayContentLength_def)
  have c54: "?rb ?s5 \<le> ?rb ?s4" by (rule removeMatch_le)
  have c43: "?rb ?s4 \<le> ?rb ?s3" by (rule removeMatch_le)
  have c32: "?rb ?s3 \<le> ?rb ?s2" by (rule removeMatch_le)
  have c21: "?rb ?s2 \<le> ?rb ?s1" by (rule removeMatch_le)
  show ?thesis
  proof (cases "headingMatch line")
    case (Some n)
    then have "drop (getRemovedPrefixLength line) line = ?s1"
      by (simp add: getRemovedPrefixLength_def removeMatch_def)
    then show ?thesis using d c54 c43 c32 c21 by simp
  next
    case h: None
    then have s1: "?s1 = line" by (simp add: removeMatch_def)
    show ?thesis
    proof (cases "taskLen line")
      case (Some n)
      then have "drop (getRemovedPrefixLength line) line = ?s2"
        unfolding s1 by (simp add: getRemovedPrefixLength_def removeMatch_def h)
      then show ?thesis using d c54 c43 c32 by simp
    next
      case t: None
      then have s2: "?s2 = line" unfolding s1 by (simp add: removeMatch_def)
      show ?thesis
      proof (cases "ulLen line")
        case (Some n)
        then have "drop (getRemovedPrefixLength line) line = ?s3"
          unfolding s2 by (simp add: getRemovedPrefixLength_def removeMatch_def h t)
        then show ?thesis using d c54 c43 by simp
      next
        case u: None
        then have s3: "?s3 = line" unfolding s2 by (simp add: removeMatch_def)
        show ?thesis
        proof (cases "olLen line")
          case (Some n)
          then have "drop (getRemovedPrefixLength line) line = ?s4"
            unfolding s3 by (simp add: getRemovedPrefixLength_def removeMatch_def h t u)
          then show ?thesis using d c54 by simp
        next
          case o: None
          then have s4: "?s4 = line" unfolding s3 by (simp add: removeMatch_def)
          have "drop (getRemovedPrefixLength line) line = ?s5"
            unfolding s4
            by (simp add: getRemovedPrefixLength_def removeMatch_def h t u o split: option.splits)
          then show ?thesis using d by simp
        qed
      qed
    qed
  qed
qed

lemma getRemovedPrefixLength_le: "getRemovedPrefixLength L \<le> length L"
  using headingMatch_ends_space [of L] taskLen_ends_space [of L] ulLen_ends_space [of L]
    olLen_ends_space [of L] bqLen_ends_space [of L]
  by (auto simp: getRemovedPrefixLength_def split: option.splits)

text \<open>
  What the mapper does guarantee: measured on its own content, the line without the
  prefix that \<open>getRemovedPrefixLength\<close> finds, the index it returns for an offset \<open>d\<close> of
  the range has exactly \<open>d\<close> characters other than emphasis markers before it.
\<close>

lemma mapper_counts_own_content:
  assumes "d \<le> getDisplayContentLength L"
  shows "length (removeBold (take (mapDisplayOffsetToSourceIndex L d - getRemovedPrefixLength L)
                                   (drop (getRemovedPrefixLength L) L))) = d"
proof -
  let ?p = "getRemovedPrefixLength L"
  let ?content = "drop ?p L"
  show ?thesis
  proof (cases "mapLoop ?content 0 0 d")
    case None
    then have "length (removeBold ?content) \<le> d"
      using mapLoop_None [of ?content 0 0 d] by simp
    moreover have "d \<le> length (removeBold ?content)"
      using assms display_le_content [of L] by simp
    moreover have "mapDisplayOffsetToSourceIndex L d = length L"
      by (simp add: mapDisplayOffsetToSourceIndex_def None)
    ultimately show ?thesis by simp
  next
    case (Some j)
    then obtain k where k: "j = k" "k < length ?content" "length (removeBold (take k ?content)) = d"
      using mapLoop_Some [of ?content 0 0 d j] by auto
    have "mapDisplayOffsetToSourceIndex L d = ?p + k"
      by (simp add: mapDisplayOffsetToSourceIndex_def Some k(1))
    then show ?thesis using k(3) by simp
  qed
qed

text \<open>
  On a line where the replacements of \<open>getDisplayContentLength\<close> remove nothing but that
  one prefix, this is the round trip through the display.
\<close>

lemma round_trip_without_stacked_markers:
  assumes single: "strippedForDisplay L = drop (getRemovedPrefixLength L) L"
    and range: "d \<le> getDisplayContentLength L"
  shows "displayOffsetOfSourceIndex L (mapDisplayOffsetToSourceIndex L d) = d"
proof -
  have "length L - length (drop (getRemovedPrefixLength L) L) = getRemovedPrefixLength L"
    using getRemovedPrefixLength_le [of L] by simp
  then show ?thesis
    using mapper_counts_own_content [OF range]
    by (simp add: displayOffsetOfSourceIndex_def single Let_def)
qed

lemmas mapLoop_unfold = mapLoop.simps [of "c # s" for c s]


section \<open>Where the code departs from its description\<close>

subsection \<open>Stacked markers and the offset mapper\<close>

text \<open>
  Claim C3. The round trip fails on a line with two structural markers, one after the
  other. For the heading \<open># 1. Intro\<close> the display content is \<open>Intro\<close>, five characters:
  \<open>getDisplayContentLength\<close> removes the heading marker and then the ordered-list
  marker. \<open>getRemovedPrefixLength\<close> stops at the first pattern that matches and finds
  only the two characters of the heading marker, so the mapper counts \<open>1. \<close> as display
  content: it sends the display offset 5, the end of \<open>Intro\<close>, to the source index 7,
  between \<open>In\<close> and \<open>tro\<close>, where only two displayed characters precede.
\<close>

theorem round_trip_fails_on_stacked_markers:
  "getDisplayContentLength ''# 1. Intro'' = 5 \<and>
   getRemovedPrefixLength ''# 1. Intro'' = 2 \<and>
   mapDisplayOffsetToSourceIndex ''# 1. Intro'' 5 = 7 \<and>
   displayOffsetOfSourceIndex ''# 1. Intro'' (mapDisplayOffsetToSourceIndex ''# 1. Intro'' 5) = 2"
proof -
  have pre: "getRemovedPrefixLength ''# 1. Intro'' = 2"
    by (simp add: getRemovedPrefixLength_def headingMatch_def pattern_defs)
  have shown: "strippedForDisplay ''# 1. Intro'' = ''Intro''"
    by (simp add: strippedForDisplay_def removeMatch_def headingMatch_def taskLen_def
        ulLen_def olLen_def bqLen_def pattern_defs)
  have len: "getDisplayContentLength ''# 1. Intro'' = 5"
    by (simp add: getDisplayContentLength_def removeMatch_def headingMatch_def taskLen_def
        ulLen_def olLen_def bqLen_def pattern_defs)
  have src: "mapDisplayOffsetToSourceIndex ''# 1. Intro'' 5 = 7"
    by (simp add: mapDisplayOffsetToSourceIndex_def pre mapLoop_unfold startsWithBold_def)
  have ret: "displayOffsetOfSourceIndex ''# 1. Intro'' 7 = 2"
    by (simp add: displayOffsetOfSourceIndex_def shown Let_def)
  show ?thesis by (simp add: pre len src ret)
qed

subsection \<open>The document can become empty\<close>

lemma setValue_nonempty: "splitNl v \<noteq> []"
  by (cases v) (simp_all add: Let_def)

lemma deleteCurrentSelection_nonempty:
  assumes "deleteCurrentSelection aIdx aOff fIdx fOff st = Some st'"
  shows "lines st' \<noteq> []"
proof -
  from assms obtain nx c a where
    "st' = st\<lparr>lines := (if nx = [] then [[]] else nx), cursorPosition := c,
               activeLineIndex := a, isDirty := True\<rparr>"
    unfolding deleteCurrentSelection_def Let_def map_option_eq_Some by blast
  then show ?thesis by simp
qed

text \<open>
  Claim C1. \<open>deleteCurrentSelection\<close> replaces an empty array by one empty line, and
  \<open>setValue\<close> always yields at least one line, but \<open>deleteLines\<close> of the extension
  interface has no such guard: removing the only line of the document \<open>a\<close> leaves the
  empty array, also when an extension does so from its key hook.
\<close>

theorem deleteLines_empties_document:
  "map_option lines (applyApi (DeleteLines 0 1) (initialEditor ''a'')) = Some [] \<and>
   map_option lines
     (handleKeyDown noOptions [\<lambda>e st. ([DeleteLines 0 (int (length (lines st)))], True)]
        (pressKey OtherKey False 0) 0 (initialEditor ''a'')) = Some []"
  by (simp add: applyApi_def jsSplice_def initialEditor_def handleKeyDown_def)

subsection \<open>The marker of a task line\<close>

text \<open>
  The two markers of a task line, in general: the next marker is always the unchecked
  one; the current marker is checked exactly when \<open>[x]\<close> or \<open>[X]\<close> occurs somewhere in
  the line.
\<close>

lemma task_markers:
  assumes "kind (getListMeta L) = Some Task"
  shows "nextMarker (getListMeta L) =
           takeWhile isSpace L @ [hd (dropWhile isSpace L)] @ '' [ ] ''"
    and "currentMarker (getListMeta L) =
           takeWhile isSpace L @ [hd (dropWhile isSpace L)] @
             (if hasChecked L then '' [x] '' else '' [ ] '')"
proof -
  obtain i b where task: "taskMatch L = Some (i, b)"
    using assms by (auto simp: kind_getListMeta split: if_splits)
  then have ib: "i = takeWhile isSpace L" "b = hd (dropWhile isSpace L)"
    by (auto simp: taskMatch_def Let_def split: option.splits)
  show "nextMarker (getListMeta L) =
           takeWhile isSpace L @ [hd (dropWhile isSpace L)] @ '' [ ] ''"
    by (simp add: getListMeta_def task ib)
  show "currentMarker (getListMeta L) =
           takeWhile isSpace L @ [hd (dropWhile isSpace L)] @
             (if hasChecked L then '' [x] '' else '' [ ] '')"
    by (simp add: getListMeta_def task ib)
qed

text \<open>
  Claim C4. The marker is rebuilt from the captured groups, with single spaces and a
  lower-case \<open>x\<close>, and the test for a checked box looks at the whole line. On the
  unchecked task \<open>- [ ] a [x]\<close> the current marker is the checked \<open>- [x] \<close>, not the
  prefix \<open>- [ ] \<close> of the line; on \<open>- [X] a\<close> it is \<open>- [x] \<close>, not \<open>- [X] \<close>.
\<close>

theorem task_marker_checked_elsewhere:
  "getListMeta ''- [ ] a [x]'' =
     \<lparr>kind = Some Task, indent = [], currentMarker = ''- [x] '', nextMarker = ''- [ ] '',
      number = None\<rparr> \<and>
   take 6 ''- [ ] a [x]'' = ''- [ ] '' \<and>
   getListMeta ''- [X] a'' =
     \<lparr>kind = Some Task, indent = [], currentMarker = ''- [x] '', nextMarker = ''- [ ] '',
      number = None\<rparr> \<and>
   take 6 ''- [X] a'' = ''- [X] ''"
  by (simp add: getListMeta_def pattern_defs)

subsection \<open>Backspace inside the marker of an ordered item\<close>

text \<open>
  What Backspace inside a marker does in general: it cuts as many characters from the
  line as the rebuilt marker \<open>currentMarker\<close> has. For task, unordered and quote lines
  that is the length of the structural prefix of the line.
\<close>

lemma backspace_inside_marker:
  assumes idx: "i < length (lines st)"
    and nosel: "\<not> isSelecting st"
    and hooks: "runHooks onKeyDowns e st st = Some (False, st)"
    and bs: "key e = Backspace"
    and nomerge: "\<not> (orDefault (selectionStart e) 0 = 0 \<and> 0 < i)"
    and item: "kind (getListMeta (lines st ! i)) \<noteq> None"
    and caret: "orDefault (selectionStart e) 0 \<le> length (currentMarker (getListMeta (lines st ! i)))"
    and marker: "0 < length (currentMarker (getListMeta (lines st ! i)))"
  shows "handleKeyDown opts onKeyDowns e i st =
           Some (st\<lparr>lines := (lines st)[i := drop (length (currentMarker (getListMeta (lines st ! i))))
                                               (lines st ! i)],
                    isDirty := True, cursorPosition := Some 0,
                    activeLineIndex := Some (int i)\<rparr>)"
  unfolding keyDown_no_hook [OF hooks] keyDownBuiltin_def Let_def backspaceMarker_def
  using nosel bs nomerge item caret marker
  by (auto simp: lineAt_in_range [OF idx] jsSet_in_range [OF idx])

lemma list_line_no_heading:
  assumes "expect Q (dropWhile isSpace L) \<noteq> None" "\<not> Q (CHR ''#'')"
  shows "headingMatch L = None"
proof (cases L)
  case Nil
  then show ?thesis by (simp add: headingMatch_def)
next
  case (Cons c r)
  show ?thesis
  proof (cases "c = CHR ''#''")
    case True
    then have "dropWhile isSpace L = L" by (simp add: Cons isSpace_def)
    with assms True show ?thesis by (simp add: Cons expect_def)
  next
    case False
    then show ?thesis by (simp add: headingMatch_def Cons isHash_def)
  qed
qed

lemma marker_length_is_prefix_length:
  assumes "kind (getListMeta L) \<in> {Some Task, Some Ul, Some BlockquoteKind}"
  shows "length (currentMarker (getListMeta L)) = getRemovedPrefixLength L"
proof -
  consider (task) i b where "taskMatch L = Some (i, b)"
    | (ul) i b where "taskMatch L = None" "ulMatch L = Some (i, b)"
    | (bq) i where "taskMatch L = None" "ulMatch L = None" "olMatch L = None"
        "bqMatch L = Some i"
    using assms by (auto simp: kind_getListMeta split: if_splits)
  then show ?thesis
  proof cases
    case task
    then have i: "i = takeWhile isSpace L"
      by (auto simp: taskMatch_def Let_def split: option.splits)
    have "expect isBullet (dropWhile isSpace L) \<noteq> None"
      using task by (auto simp: taskMatch_def Let_def split: option.splits Option.bind_splits)
    then have h: "headingMatch L = None"
      by (rule list_line_no_heading) (simp add: isBullet_def)
    show ?thesis
      by (simp add: getListMeta_def task getRemovedPrefixLength_def h taskLen_def i)
  next
    case ul
    then have i: "i = takeWhile isSpace L"
      by (auto simp: ulMatch_def Let_def split: option.splits)
    have "expect isBullet (dropWhile isSpace L) \<noteq> None"
      using ul by (auto simp: ulMatch_def Let_def split: option.splits Option.bind_splits)
    then have h: "headingMatch L = None"
      by (rule list_line_no_heading) (simp add: isBullet_def)
    show ?thesis
      by (simp add: getListMeta_def ul getRemovedPrefixLength_def h taskLen_def ulLen_def i)
  next
    case bq
    then have i: "i = takeWhile isSpace L"
      by (auto simp: bqMatch_def split: option.splits)
    have "expect (\<lambda>c. c = CHR ''>'') (dropWhile isSpace L) \<noteq> None"
      using bq by (auto simp: bqMatch_def split: option.splits Option.bind_splits)
    then have h: "headingMatch L = None"
      by (rule list_line_no_heading) simp
    show ?thesis
      by (simp add: getListMeta_def bq getRemovedPrefixLength_def h taskLen_def ulLen_def
          olLen_def bqLen_def i)
  qed
qed

lemma meta_leading_zero:
  "getListMeta ''01. a'' =
     \<lparr>kind = Some Ol, indent = [], currentMarker = ''1. '', nextMarker = ''2. '',
      number = Some (Fin 1)\<rparr>"
  by (simp add: getListMeta_def pattern_defs number_defs)

text \<open>
  Claim C5. Backspace cuts as many characters as the rebuilt marker has. On the
  ordered item \<open>01. a\<close> the rebuilt marker is \<open>1. \<close>, one character shorter than the
  marker \<open>01. \<close> of the line, which \<open>getRemovedPrefixLength\<close> measures as 4: Backspace
  with the caret at 2 leaves the line \<open> a\<close> with a leading space, not \<open>a\<close>.
\<close>

theorem backspace_marker_leading_zero:
  "handleKeyDown noOptions [] (pressKey Backspace False 2) 0 (initialEditor ''01. a'') =
     Some \<lparr>lines = ['' a''], activeLineIndex = Some 0, cursorPosition = Some 0,
           isSelecting = False, isDirty = True\<rparr> \<and>
   getRemovedPrefixLength ''01. a'' = 4 \<and>
   drop (getRemovedPrefixLength ''01. a'') ''01. a'' = ''a''"
proof -
  have "getRemovedPrefixLength ''01. a'' = 4"
    by (simp add: getRemovedPrefixLength_def headingMatch_def taskLen_def ulLen_def olLen_def
        pattern_defs)
  then show ?thesis by (simp add: key_defs meta_leading_zero)
qed

subsection \<open>Enter on an empty item whose marker is not the rebuilt one\<close>

text \<open>
  Claim C7. The handler recognises an empty item by removing the rebuilt marker
  \<open>currentMarker\<close> from the line as a literal prefix. On the empty task item \<open>- [X] \<close>
  the rebuilt marker is \<open>- [x] \<close>, on the empty ordered item \<open>01. \<close> it is \<open>1. \<close>;
  neither is a prefix of its line, nothing is removed, and the line does not count as
  blank. Enter with the caret at the end of the line, past the whole marker, then does
  not end the list: the item stays as it is and a new item is added after it.
\<close>

theorem enter_on_blank_item_adds_item:
  "kind (getListMeta ''- [X] '') = Some Task \<and>
   drop (getRemovedPrefixLength ''- [X] '') ''- [X] '' = [] \<and>
   handleKeyDown noOptions [] (pressKey Enter False 6) 0 (initialEditor ''- [X] '') =
     Some \<lparr>lines = [''- [X] '', ''- [ ] ''], activeLineIndex = Some 1,
           cursorPosition = Some 6, isSelecting = False, isDirty = True\<rparr> \<and>
   kind (getListMeta ''01. '') = Some Ol \<and>
   drop (getRemovedPrefixLength ''01. '') ''01. '' = [] \<and>
   handleKeyDown noOptions [] (pressKey Enter False 4) 0 (initialEditor ''01. '') =
     Some \<lparr>lines = [''01. '', ''2. ''], activeLineIndex = Some 1,
           cursorPosition = Some 3, isSelecting = False, isDirty = True\<rparr>"
proof -
  have task: "getListMeta ''- [X] '' =
      \<lparr>kind = Some Task, indent = [], currentMarker = ''- [x] '', nextMarker = ''- [ ] '',
       number = None\<rparr>"
    by (simp add: getListMeta_def pattern_defs)
  have ol: "getListMeta ''01. '' =
      \<lparr>kind = Some Ol, indent = [], currentMarker = ''1. '', nextMarker = ''2. '',
       number = Some (Fin 1)\<rparr>"
    by (simp add: getListMeta_def pattern_defs number_defs)
  have p1: "getRemovedPrefixLength ''- [X] '' = 6"
    by (simp add: getRemovedPrefixLength_def headingMatch_def taskLen_def pattern_defs)
  have p2: "getRemovedPrefixLength ''01. '' = 4"
    by (simp add: getRemovedPrefixLength_def headingMatch_def taskLen_def ulLen_def olLen_def
        pattern_defs)
  have e1: "handleKeyDown noOptions [] (pressKey Enter False 6) 0 (initialEditor ''- [X] '') =
     Some \<lparr>lines = [''- [X] '', ''- [ ] ''], activeLineIndex = Some 1,
           cursorPosition = Some 6, isSelecting = False, isDirty = True\<rparr>"
    by (simp add: key_defs task)
  have e2: "handleKeyDown noOptions [] (pressKey Enter False 4) 0 (initialEditor ''01. '') =
     Some \<lparr>lines = [''01. '', ''2. ''], activeLineIndex = Some 1,
           cursorPosition = Some 3, isSelecting = False, isDirty = True\<rparr>"
    by (simp add: key_defs ol)
  show ?thesis by (simp add: task ol p1 p2 e1 e2)
qed

subsection \<open>Shift+Tab and the pending caret\<close>

text \<open>
  Claim C6. Shift+Tab tests \<open>/^\s{n,}/\<close> but removes \<open>/^ {n}/\<close>, and it sets the pending
  caret to \<open>max(0, caret - n)\<close> outside that test. On the list line \<open>- a\<close>, which has no
  indentation, Shift+Tab with the caret at 3 leaves the text as it is and yet moves the
  pending caret to 1. On a list line indented by two tab characters, two characters
  of indentation are present, nothing is removed, and the pending caret moves from 4
  to 2. Tab without Shift, the sibling path, changes text and caret together.
\<close>

theorem shift_tab_moves_caret_without_text_change:
  "kind (getListMeta ''- a'') = Some Ul \<and>
   handleKeyDown noOptions [] (pressKey Tab True 3) 0 (initialEditor ''- a'') =
     Some \<lparr>lines = [''- a''], activeLineIndex = Some 0, cursorPosition = Some 1,
           isSelecting = False, isDirty = True\<rparr> \<and>
   kind (getListMeta ([CHR 0x09, CHR 0x09] @ ''- a'')) = Some Ul \<and>
   length (indent (getListMeta ([CHR 0x09, CHR 0x09] @ ''- a''))) = 2 \<and>
   handleKeyDown noOptions [] (pressKey Tab True 4) 0
       (initialEditor ([CHR 0x09, CHR 0x09] @ ''- a'')) =
     Some \<lparr>lines = [[CHR 0x09, CHR 0x09] @ ''- a''], activeLineIndex = Some 0,
           cursorPosition = Some 2, isSelecting = False, isDirty = True\<rparr>"
proof -
  have k0: "kind (getListMeta ''- a'') = Some Ul"
    by (simp add: kind_getListMeta pattern_defs)
  have e0: "handleKeyDown noOptions [] (pressKey Tab True 3) 0 (initialEditor ''- a'') =
     Some \<lparr>lines = [''- a''], activeLineIndex = Some 0, cursorPosition = Some 1,
           isSelecting = False, isDirty = True\<rparr>"
    using k0 by (simp add: key_defs numeral_2_eq_2)
  have k: "kind (getListMeta ([CHR 0x09, CHR 0x09] @ ''- a'')) = Some Ul"
    by (simp add: kind_getListMeta pattern_defs)
  have ind: "indent (getListMeta ([CHR 0x09, CHR 0x09] @ ''- a'')) = [CHR 0x09, CHR 0x09]"
    by (simp add: indent_getListMeta isSpace_def)
  have "handleKeyDown noOptions [] (pressKey Tab True 4) 0
       (initialEditor ([CHR 0x09, CHR 0x09] @ ''- a'')) =
     Some \<lparr>lines = [[CHR 0x09, CHR 0x09] @ ''- a''], activeLineIndex = Some 0,
           cursorPosition = Some 2, isSelecting = False, isDirty = True\<rparr>"
    using k by (simp add: key_defs numeral_2_eq_2)
  then show ?thesis using k0 e0 k ind by simp
qed

end
